theory Spec2Isabelle
  imports Main "HOL-Library.Char_ord" "HOL-Library.List_Lexorder" "HOL-Library.Option_ord"
    "HOL-Library.Product_Lexorder"
begin

section \<open>Access log: the two program variants logger.py and logger2.py\<close>

text \<open>
  The repository holds two variants of one console program over a single SQLite table
  \<^verbatim>\<open>access_log\<close>: \<^verbatim>\<open>logger.py\<close> (entry, exit, today's listing) and
  \<^verbatim>\<open>logger2.py\<close> (the same plus range listings, a \<^verbatim>\<open>synced\<close> column, a
  configuration file and the hand-off of old records to a server).

  Conventions of the embedding:
  \<^item> the table is the list of its rows in rowid order, together with the counter that
    SQLite keeps for an \<^verbatim>\<open>AUTOINCREMENT\<close> key; an SQL statement is modelled by its
    relational meaning (resource limits of the engine and I/O failures of the database
    file are outside the model);
  \<^item> \<^verbatim>\<open>ORDER BY\<close> is a stable sort of the rows in rowid order (SQL leaves the order
    of ties open; no theorem below depends on how ties are broken);
  \<^item> text is a list of bytes, compared bytewise as SQLite's default collation does;
    \<^verbatim>\<open>str.lower\<close> and \<^verbatim>\<open>str.strip\<close> are modelled on ASCII;
  \<^item> every \<^verbatim>\<open>input(...)\<close> is a parameter holding the line the operator types, and
    the clock is a parameter holding the reading of \<^verbatim>\<open>datetime.now()\<close> (one
    reading per operation);
  \<^item> an operation returns the new state and the trace of what it did: every
    \<^verbatim>\<open>sqlite3.connect\<close>, every executed statement, every HTTP request, every write
    of the configuration file, every message printed (separator and column-header lines
    are left out) and, last, an exception that is not caught.
\<close>

subsection \<open>Text\<close>

definition isspace :: "char \<Rightarrow> bool" where
  "isspace c = (c \<in> set [CHR '' '', CHR 0x09, CHR 0x0A, CHR 0x0B, CHR 0x0C, CHR 0x0D,
                           CHR 0x1C, CHR 0x1D, CHR 0x1E, CHR 0x1F])"

definition strip :: "string \<Rightarrow> string" where
  "strip s = rev (dropWhile isspace (rev (dropWhile isspace s)))"

definition lower_char :: "char \<Rightarrow> char" where
  "lower_char c =
     (case map_of (zip ''ABCDEFGHIJKLMNOPQRSTUVWXYZ'' ''abcdefghijklmnopqrstuvwxyz'') c of
        None \<Rightarrow> c
      | Some l \<Rightarrow> l)"

definition lower :: "string \<Rightarrow> string" where
  "lower s = map lower_char s"

definition digit_char :: "nat \<Rightarrow> char" where
  "digit_char n = ''0123456789'' ! (n mod 10)"

definition is_digit :: "char \<Rightarrow> bool" where
  "is_digit c = (c \<in> set ''0123456789'')"

definition digit_val :: "char \<Rightarrow> nat" where
  "digit_val c =
     (case map_of (zip ''0123456789'' [0, 1, 2, 3, 4, 5, 6, 7, 8, 9]) c of
        None \<Rightarrow> 0
      | Some v \<Rightarrow> v)"

text \<open>Zero-padded decimal fields of \<^verbatim>\<open>strftime\<close>: two digits, and four for the year.\<close>

definition pad2 :: "nat \<Rightarrow> string" where
  "pad2 n = [digit_char (n div 10), digit_char n]"

definition pad4 :: "nat \<Rightarrow> string" where
  "pad4 n = [digit_char (n div 1000), digit_char (n div 100), digit_char (n div 10), digit_char n]"

subsection \<open>Calendar and clock\<close>

text \<open>
  A reading of \<^verbatim>\<open>datetime.datetime.now()\<close>. The calendar is the proleptic Gregorian
  calendar of Python's \<^verbatim>\<open>datetime\<close>, years 1 to 9999.
\<close>

record date =
  year :: nat
  month :: nat
  day :: nat

record datetime = date +
  hour :: nat
  minute :: nat
  second :: nat

definition is_leap :: "nat \<Rightarrow> bool" where
  "is_leap y = (y mod 4 = 0 \<and> (y mod 100 \<noteq> 0 \<or> y mod 400 = 0))"

definition days_in_month :: "nat \<Rightarrow> nat \<Rightarrow> nat" where
  "days_in_month y m =
     (if m = 2 then (if is_leap y then 29 else 28)
      else if m = 4 \<or> m = 6 \<or> m = 9 \<or> m = 11 then 30 else 31)"

definition valid_date :: "'a date_scheme \<Rightarrow> bool" where
  "valid_date d =
     (1 \<le> year d \<and> year d \<le> 9999 \<and> 1 \<le> month d \<and> month d \<le> 12 \<and>
      1 \<le> day d \<and> day d \<le> days_in_month (year d) (month d))"

text \<open>The day number of Python's \<^verbatim>\<open>date.toordinal\<close>: 0001-01-01 is day 1.\<close>

definition days_before_year :: "nat \<Rightarrow> int" where
  "days_before_year y =
     (let z = int y - 1 in z * 365 + z div 4 - z div 100 + z div 400)"

definition days_before_month :: "nat \<Rightarrow> nat \<Rightarrow> int" where
  "days_before_month y m =
     [0, 0, 31, 59, 90, 120, 151, 181, 212, 243, 273, 304, 334] ! m
       + (if m > 2 \<and> is_leap y then 1 else 0)"

definition toordinal :: "'a date_scheme \<Rightarrow> int" where
  "toordinal d = days_before_year (year d) + days_before_month (year d) (month d) + int (day d)"




text \<open>\<^verbatim>\<open>strftime("%Y-%m-%d")\<close> and \<^verbatim>\<open>strftime("%H:%M:%S")\<close>.\<close>

definition strftime_date :: "'a date_scheme \<Rightarrow> string" where
  "strftime_date d = pad4 (year d) @ ''-'' @ pad2 (month d) @ ''-'' @ pad2 (day d)"

definition strftime_time :: "datetime \<Rightarrow> string" where
  "strftime_time t = pad2 (hour t) @ '':'' @ pad2 (minute t) @ '':'' @ pad2 (second t)"

definition get_today_date_str :: "datetime \<Rightarrow> string" where
  "get_today_date_str now = strftime_date now"

definition get_time_str :: "datetime \<Rightarrow> string" where
  "get_time_str now = strftime_time now"

text \<open>
  \<^verbatim>\<open>datetime.datetime.strptime(s, "%Y-%m-%d")\<close>. The library matches the text against
  \<^verbatim>\<open>(\d\d\d\d)-(1[0-2]|0[1-9]|[1-9])-(3[0-1]|[1-2]\d|0[1-9]|[1-9]| [1-9])\<close>,
  alternatives tried from the left, refuses text left over after the match and then
  builds the date, which refuses a year 0 and a day the month does not have. Every
  refusal is a \<^verbatim>\<open>ValueError\<close>, here \<open>None\<close>. A month alternative that matches is never
  given up for a later one, because the text after it has to start with the hyphen.
\<close>

fun parse_year :: "string \<Rightarrow> (nat \<times> string) option" where
  "parse_year (a # b # c # d # rest) =
     (if is_digit a \<and> is_digit b \<and> is_digit c \<and> is_digit d
      then Some (digit_val a * 1000 + digit_val b * 100 + digit_val c * 10 + digit_val d, rest)
      else None)"
| "parse_year _ = None"

fun parse_month :: "string \<Rightarrow> (nat \<times> string) option" where
  "parse_month (a # b # rest) =
     (if a = CHR ''1'' \<and> b \<in> set ''012'' then Some (10 + digit_val b, rest)
      else if a = CHR ''0'' \<and> b \<in> set ''123456789'' then Some (digit_val b, rest)
      else if a \<in> set ''123456789'' then Some (digit_val a, b # rest)
      else None)"
| "parse_month [a] = (if a \<in> set ''123456789'' then Some (digit_val a, []) else None)"
| "parse_month [] = None"

fun parse_day :: "string \<Rightarrow> (nat \<times> string) option" where
  "parse_day (a # b # rest) =
     (if a = CHR ''3'' \<and> b \<in> set ''01'' then Some (30 + digit_val b, rest)
      else if a \<in> set ''12'' \<and> is_digit b then Some (digit_val a * 10 + digit_val b, rest)
      else if a = CHR ''0'' \<and> b \<in> set ''123456789'' then Some (digit_val b, rest)
      else if a \<in> set ''123456789'' then Some (digit_val a, b # rest)
      else if a = CHR '' '' \<and> b \<in> set ''123456789'' then Some (digit_val b, rest)
      else None)"
| "parse_day [a] = (if a \<in> set ''123456789'' then Some (digit_val a, []) else None)"
| "parse_day [] = None"

fun hyphen :: "string \<Rightarrow> string option" where
  "hyphen (c # rest) = (if c = CHR ''-'' then Some rest else None)"
| "hyphen [] = None"

definition strptime :: "string \<Rightarrow> datetime option" where
  "strptime s =
     (case parse_year s of None \<Rightarrow> None | Some (y, s1) \<Rightarrow>
      case hyphen s1 of None \<Rightarrow> None | Some s2 \<Rightarrow>
      case parse_month s2 of None \<Rightarrow> None | Some (m, s3) \<Rightarrow>
      case hyphen s3 of None \<Rightarrow> None | Some s4 \<Rightarrow>
      case parse_day s4 of None \<Rightarrow> None | Some (d, s5) \<Rightarrow>
      if s5 \<noteq> [] then None
      else let t = \<lparr>year = y, month = m, day = d, hour = 0, minute = 0, second = 0\<rparr>
           in if valid_date t then Some t else None)"

subsection \<open>The table access\_log\<close>

text \<open>
  One row of \<^verbatim>\<open>access_log\<close> as \<^verbatim>\<open>logger.py\<close> creates the table; \<^verbatim>\<open>logger2.py\<close>
  adds the column \<^verbatim>\<open>synced\<close>. The column \<^verbatim>\<open>id\<close> is \<open>rec_id\<close>, \<^verbatim>\<open>name\<close> is
  \<open>rec_name\<close> and \<^verbatim>\<open>date\<close> is \<open>rec_date\<close>; a column that may hold \<^verbatim>\<open>NULL\<close> is an
  option. The seven columns of the first record are also the keys of the dictionaries
  that \<^verbatim>\<open>get_records_older_than_30_days\<close> builds.
\<close>

record access_row =
  rec_id :: int
  rec_name :: string
  rec_date :: string
  entry_time :: "string option"
  exit_time :: "string option"
  result :: "string option"
  reason :: "string option"

record access_row2 = access_row +
  synced :: int

text \<open>
  The table and the counter of \<^verbatim>\<open>sqlite_sequence\<close>: with \<^verbatim>\<open>AUTOINCREMENT\<close> a new
  key is one more than the largest key the table has ever held.
\<close>

record 'r database =
  table_rows :: "'r list"
  seq :: int

text \<open>
  The file \<^verbatim>\<open>server_config.json\<close>: absent, present with text that \<^verbatim>\<open>json.load\<close>
  refuses, or present with a JSON value (numbers are integers here). The state of the
  program is the table and this file.
\<close>

datatype json = JNull | JBool bool | JInt int | JStr string | JArr "json list"
  | JObj "(string \<times> json) list"



subsection \<open>Traces\<close>

datatype error = ValueError | OverflowError | TypeError | AttributeError | JSONDecodeError
  | EOFError | OperationalError | Uncaught_exception

datatype sql = DROP_TABLE | CREATE_TABLE | INSERT | SELECT | UPDATE | DELETE

text \<open>
  What \<^verbatim>\<open>requests.post\<close> is called with (the bearer token is built from the API key),
  and what comes back: a response with its status code and text, an exception of the
  family \<^verbatim>\<open>RequestException\<close>, which \<^verbatim>\<open>send_to_server\<close> catches, or any other
  exception, which it does not catch. The server is a parameter of the model.
\<close>

record request =
  req_url :: json
  req_api_key :: json
  req_records :: "access_row list"
  req_sync_date :: string


datatype message =
    Created_default_config
  | Please_update_config
  | Entry_recorded string string string
  | No_existing_entry string
  | Exit_recorded string string
  | Invalid_period
  | Logs_title string string string
  | No_records_period
  | Invalid_date_format
  | Logs_for string
  | No_records_date
  | Log_line "string list"
  | Total_records nat
  | No_old_records
  | Found_old_records nat
  | Will_be_sent_and_deleted
  | Sync_cancelled
  | Sync_disabled
  | Url_not_configured
  | Sending_records nat
  | Sent_successfully
  | Server_returned_error int string
  | Error_connecting
  | Deleted_old_records nat
  | Sync_completed
  | Sync_failed_not_deleted
  | Check_configuration
  | Quitting
  | Invalid_choice

datatype event = Db_connect | Db_execute sql | Config_write json | Http_post request
  | Printed message | Raised error

subsection \<open>SQL statements\<close>

text \<open>\<^verbatim>\<open>INSERT\<close> without a key: the new row goes last, under the next key.\<close>

definition next_rowid :: "('a access_row_scheme) database \<Rightarrow> int" where
  "next_rowid d = max (seq d) (fold max (map rec_id (table_rows d)) 0) + 1"

definition insert_row ::
  "(int \<Rightarrow> 'a access_row_scheme) \<Rightarrow> ('a access_row_scheme) database
    \<Rightarrow> ('a access_row_scheme) database" where
  "insert_row mk d =
     (let i = next_rowid d in d\<lparr>table_rows := table_rows d @ [mk i], seq := i\<rparr>)"

text \<open>\<^verbatim>\<open>ORDER BY k\<close> and \<^verbatim>\<open>ORDER BY k DESC\<close>; \<^verbatim>\<open>NULL\<close> is \<open>None\<close>, the least value.\<close>

definition order_by :: "('r \<Rightarrow> 'k::linorder) \<Rightarrow> 'r list \<Rightarrow> 'r list" where
  "order_by k rs = sort_key k rs"

definition order_by_desc :: "('r \<Rightarrow> 'k::linorder) \<Rightarrow> 'r list \<Rightarrow> 'r list" where
  "order_by_desc k rs = rev (sort_key k (rev rs))"

text \<open>\<^verbatim>\<open>LIMIT 1\<close> with \<^verbatim>\<open>fetchone()\<close>.\<close>

definition fetchone :: "'r list \<Rightarrow> 'r option" where
  "fetchone rs = (case rs of [] \<Rightarrow> None | r # _ \<Rightarrow> Some r)"

text \<open>\<^verbatim>\<open>UPDATE access_log SET exit_time = ? WHERE id = ?\<close>\<close>

definition update_exit_time ::
  "string \<Rightarrow> int \<Rightarrow> ('a access_row_scheme) database \<Rightarrow> ('a access_row_scheme) database" where
  "update_exit_time t i d =
     d\<lparr>table_rows := map (\<lambda>r. if rec_id r = i then r\<lparr>exit_time := Some t\<rparr> else r) (table_rows d)\<rparr>"

text \<open>\<^verbatim>\<open>x if x else ""\<close> on a nullable text column.\<close>

definition or_empty :: "string option \<Rightarrow> string" where
  "or_empty x = (case x of None \<Rightarrow> [] | Some s \<Rightarrow> s)"

text \<open>
  Printing the fetched rows one by one. The format \<^verbatim>\<open>{res:10}\<close> raises
  \<^verbatim>\<open>TypeError\<close> on \<^verbatim>\<open>None\<close>, which ends the listing; the total is printed after the
  last row by the second variant only. Padding to the column width is left out.
\<close>

fun print_rows :: "('r \<Rightarrow> string list option) \<Rightarrow> event list \<Rightarrow> 'r list \<Rightarrow> event list" where
  "print_rows fmt after [] = after"
| "print_rows fmt after (r # rs) =
     (case fmt r of
        None \<Rightarrow> [Raised TypeError]
      | Some cols \<Rightarrow> Printed (Log_line cols) # print_rows fmt after rs)"

subsection \<open>Entry and exit (both variants)\<close>

text \<open>
  \<^verbatim>\<open>record_entry\<close> of \<^verbatim>\<open>logger.py\<close>. The second and third arguments are the lines
  typed at the two prompts; the second prompt appears only for a denial.
\<close>

definition logger_record_entry ::
  "datetime \<Rightarrow> string \<Rightarrow> string \<Rightarrow> string \<Rightarrow> access_row database
    \<Rightarrow> access_row database \<times> event list" where
  "logger_record_entry now nm res_line reason_line d =
     (let date = get_today_date_str now;
          entry_t = get_time_str now;
          res = lower (strip res_line);
          why = (if res = ''denied'' then Some (strip reason_line) else None)
      in (insert_row (\<lambda>i. \<lparr>rec_id = i, rec_name = nm, rec_date = date,
                              entry_time = Some entry_t, exit_time = None,
                              result = Some res, reason = why\<rparr>) d,
          [Db_connect, Db_execute INSERT, Printed (Entry_recorded nm entry_t res)]))"

text \<open>\<^verbatim>\<open>record_entry\<close> of \<^verbatim>\<open>logger2.py\<close>: the same, with \<^verbatim>\<open>synced\<close> set to 0.\<close>

definition record_entry ::
  "datetime \<Rightarrow> string \<Rightarrow> string \<Rightarrow> string \<Rightarrow> access_row2 database
    \<Rightarrow> access_row2 database \<times> event list" where
  "record_entry now nm res_line reason_line d =
     (let date = get_today_date_str now;
          entry_t = get_time_str now;
          res = lower (strip res_line);
          why = (if res = ''denied'' then Some (strip reason_line) else None)
      in (insert_row (\<lambda>i. \<lparr>rec_id = i, rec_name = nm, rec_date = date,
                              entry_time = Some entry_t, exit_time = None,
                              result = Some res, reason = why, synced = 0\<rparr>) d,
          [Db_connect, Db_execute INSERT, Printed (Entry_recorded nm entry_t res)]))"

text \<open>
  \<^verbatim>\<open>record_exit\<close>, the same text in both files, so one definition over rows with or
  without the column \<^verbatim>\<open>synced\<close>.
\<close>

definition open_entry :: "string \<Rightarrow> string \<Rightarrow> 'a access_row_scheme \<Rightarrow> bool" where
  "open_entry nm date r =
     (rec_name r = nm \<and> rec_date r = date \<and> exit_time r = None \<and> result r = Some ''allowed'')"

definition record_exit ::
  "datetime \<Rightarrow> string \<Rightarrow> ('a access_row_scheme) database
    \<Rightarrow> ('a access_row_scheme) database \<times> event list" where
  "record_exit now nm d =
     (let date = get_today_date_str now;
          exit_t = get_time_str now;
          row = fetchone (order_by_desc rec_id (filter (open_entry nm date) (table_rows d)))
      in case row of
           None \<Rightarrow> (d, [Db_connect, Db_execute SELECT, Printed (No_existing_entry nm)])
         | Some r \<Rightarrow>
             (update_exit_time exit_t (rec_id r) d,
              [Db_connect, Db_execute SELECT, Db_execute UPDATE,
               Printed (Exit_recorded nm exit_t)]))"

subsection \<open>logger.py: start-up, today's listing, menu loop\<close>

text \<open>
  \<^verbatim>\<open>init_db\<close> of \<^verbatim>\<open>logger.py\<close>. Before it runs the database file may hold no table
  \<^verbatim>\<open>access_log\<close> (\<open>None\<close>) or one of either variant.
\<close>

definition drop_table_if_exists :: "'r database option \<Rightarrow> 'r database option" where
  "drop_table_if_exists t = None"

definition create_table :: "'r database option \<Rightarrow> error + access_row database" where
  "create_table t =
     (case t of None \<Rightarrow> Inr \<lparr>table_rows = [], seq = 0\<rparr> | Some _ \<Rightarrow> Inl OperationalError)"

definition logger_init_db :: "'r database option \<Rightarrow> access_row database option \<times> event list" where
  "logger_init_db t =
     (case create_table (drop_table_if_exists t) of
        Inl e \<Rightarrow> (None, [Db_connect, Db_execute DROP_TABLE, Raised e])
      | Inr d \<Rightarrow> (Some d, [Db_connect, Db_execute DROP_TABLE, Db_execute CREATE_TABLE]))"

definition today_line :: "access_row \<Rightarrow> string list option" where
  "today_line r =
     (case result r of
        None \<Rightarrow> None
      | Some res \<Rightarrow>
          Some [rec_name r, or_empty (entry_time r), or_empty (exit_time r), res,
                or_empty (reason r)])"

definition show_today_rows :: "string \<Rightarrow> access_row database \<Rightarrow> access_row list" where
  "show_today_rows date d = order_by rec_name (filter (\<lambda>r. rec_date r = date) (table_rows d))"

definition show_today :: "datetime \<Rightarrow> access_row database \<Rightarrow> access_row database \<times> event list" where
  "show_today now d =
     (let date = get_today_date_str now;
          rows = show_today_rows date d
      in (d, [Db_connect, Db_execute SELECT, Printed (Logs_for date)]
              @ print_rows today_line [] rows))"

text \<open>
  The menu loop of \<^verbatim>\<open>logger.py\<close>: each turn is a clock reading and the choice with the
  lines typed after it. An exception that escapes an operation ends the program, and so
  does the end of the input.
\<close>

datatype command = Choice_entry string string string | Choice_exit string | Choice_show
  | Choice_quit | Choice_other

definition raised :: "event list \<Rightarrow> bool" where
  "raised es = (case rev es of Raised e # _ \<Rightarrow> True | _ \<Rightarrow> False)"

definition logger_step ::
  "datetime \<Rightarrow> command \<Rightarrow> access_row database \<Rightarrow> access_row database \<times> event list" where
  "logger_step now c d =
     (case c of
        Choice_entry name_line res_line reason_line \<Rightarrow>
          logger_record_entry now (strip name_line) res_line reason_line d
      | Choice_exit name_line \<Rightarrow> record_exit now (strip name_line) d
      | Choice_show \<Rightarrow> show_today now d
      | Choice_quit \<Rightarrow> (d, [Printed Quitting])
      | Choice_other \<Rightarrow> (d, [Printed Invalid_choice]))"

fun logger_loop ::
  "(datetime \<times> command) list \<Rightarrow> access_row database \<Rightarrow> access_row database \<times> event list" where
  "logger_loop [] d = (d, [Raised EOFError])"
| "logger_loop ((now, c) # cs) d =
     (let (d1, es1) = logger_step now c d
      in if c = Choice_quit \<or> raised es1 then (d1, es1)
         else let (d2, es2) = logger_loop cs d1 in (d2, es1 @ es2))"

definition logger_main ::
  "'r database option \<Rightarrow> (datetime \<times> command) list
    \<Rightarrow> access_row database option \<times> event list" where
  "logger_main t cs =
     (case logger_init_db t of
        (None, es) \<Rightarrow> (None, es)
      | (Some d, es) \<Rightarrow> (let (d1, es1) = logger_loop cs d in (Some d1, es @ es1)))"

subsection \<open>logger2.py: listings\<close>








subsection \<open>logger2.py: configuration, hand-off to the server, clean-up\<close>











subsection \<open>Notions used by the theorems\<close>


text \<open>
  A sequence of entry and exit operations, each with its clock reading and the lines
  typed, run against the table by either variant.
\<close>

datatype operation = Entry datetime string string string | Exit datetime string

definition logger_operation :: "operation \<Rightarrow> access_row database \<Rightarrow> access_row database" where
  "logger_operation x d =
     (case x of
        Entry now nm res_line reason_line \<Rightarrow> fst (logger_record_entry now nm res_line reason_line d)
      | Exit now nm \<Rightarrow> fst (record_exit now nm d))"

definition logger2_operation :: "operation \<Rightarrow> access_row2 database \<Rightarrow> access_row2 database" where
  "logger2_operation x d =
     (case x of
        Entry now nm res_line reason_line \<Rightarrow> fst (record_entry now nm res_line reason_line d)
      | Exit now nm \<Rightarrow> fst (record_exit now nm d))"

text \<open>A clock reading and a table used as concrete inputs.\<close>

definition example_now :: datetime where
  "example_now = \<lparr>year = 2024, month = 3, day = 15, hour = 9, minute = 30, second = 0\<rparr>"

definition example_row :: "int \<Rightarrow> string \<Rightarrow> string \<Rightarrow> string \<Rightarrow> string option \<Rightarrow> string \<Rightarrow> access_row2" where
  "example_row i nm date entry_t exit_t res =
     \<lparr>rec_id = i, rec_name = nm, rec_date = date, entry_time = Some entry_t, exit_time = exit_t,
      result = Some res, reason = (if res = ''denied'' then Some ''no badge'' else None),
      synced = 0\<rparr>"

definition example_db :: "access_row2 database" where
  "example_db =
     \<lparr>table_rows =
        [example_row 1 ''bob'' ''2024-03-15'' ''08:00:00'' None ''allowed'',
         example_row 2 ''bob'' ''2024-03-15'' ''08:30:00'' None ''denied'',
         example_row 3 ''bob'' ''2024-03-15'' ''09:00:00'' None ''allowed'',
         example_row 4 ''eve'' ''2024-03-15'' ''09:10:00'' None ''denied'',
         example_row 5 ''amy'' ''2024-01-10'' ''07:00:00'' (Some ''17:00:00'') ''allowed''],
      seq = 5\<rparr>"

definition example_ops :: "operation list" where
  "example_ops =
     [Entry example_now ''dan'' '' Denied '' '' no badge '',
      Exit example_now ''dan'',
      Exit example_now ''eve'',
      Exit example_now ''bob'']"

definition example_db1 :: "access_row database" where
  "example_db1 =
     \<lparr>table_rows =
        [\<lparr>rec_id = 1, rec_name = ''eve'', rec_date = ''2024-03-15'',
          entry_time = Some ''09:10:00'', exit_time = None, result = Some ''denied'',
          reason = Some ''no badge''\<rparr>],
      seq = 1\<rparr>"






section \<open>Auxiliary facts\<close>

subsection \<open>Formatted dates are ordered as the calendar\<close>




















subsection \<open>Day numbers\<close>


lemma days_before_year_nat:
  "days_before_year (Suc n) = int n * 365 + int (n div 4) - int (n div 100) + int (n div 400)"
  by (simp add: days_before_year_def Let_def zdiv_int)

lemma int_div_Suc:
  "int (Suc n div k) = int (n div k) + (if k dvd Suc n then 1 else 0)"
  by (simp add: div_Suc mod_eq_0_iff_dvd)

lemma days_before_year_Suc:
  assumes "1 \<le> y"
  shows "days_before_year (Suc y) = days_before_year y + (if is_leap y then 366 else 365)"
proof -
  obtain n where y: "y = Suc n" using assms by (cases y) auto
  have a: "100 dvd Suc n \<Longrightarrow> 4 dvd Suc n" by (rule dvd_trans[of 4 100]) simp_all
  have b: "400 dvd Suc n \<Longrightarrow> 100 dvd Suc n" by (rule dvd_trans[of 100 400]) simp_all
  have l: "is_leap (Suc n) \<longleftrightarrow> 4 dvd Suc n \<and> (\<not> 100 dvd Suc n \<or> 400 dvd Suc n)"
    by (simp only: is_leap_def mod_eq_0_iff_dvd)
  have s: "int (Suc n) * 365 = int n * 365 + 365" by simp
  show ?thesis
    unfolding y days_before_year_nat int_div_Suc[of n 4] int_div_Suc[of n 100]
      int_div_Suc[of n 400] l s
    using a b
    by (cases "4 dvd Suc n"; cases "100 dvd Suc n"; cases "400 dvd Suc n"; simp)
qed


lemma days_before_year_mono:
  "1 \<le> a \<Longrightarrow> a \<le> b \<Longrightarrow> days_before_year a \<le> days_before_year b"
proof (induction b)
  case 0
  then show ?case by simp
next
  case (Suc b)
  show ?case
  proof (cases "a = Suc b")
    case True
    then show ?thesis by simp
  next
    case False
    with Suc.prems have ab: "a \<le> b" by simp
    with Suc.prems have "1 \<le> b" by simp
    from days_before_year_Suc[OF this] have "days_before_year b \<le> days_before_year (Suc b)"
      by (simp split: if_splits)
    with Suc.IH[OF Suc.prems(1) ab] show ?thesis by simp
  qed
qed

lemma month_cases:
  assumes "1 \<le> m" "m \<le> 12"
  shows "m = 1 \<or> m = 2 \<or> m = 3 \<or> m = 4 \<or> m = 5 \<or> m = 6 \<or> m = 7 \<or> m = 8 \<or> m = 9
    \<or> m = 10 \<or> m = 11 \<or> m = (12::nat)"
  using assms by arith

lemma days_before_month_simps:
  "days_before_month y 1 = 0"
  "days_before_month y (Suc 0) = 0"
  "days_before_month y 2 = 31"
  "days_before_month y 3 = 59 + (if is_leap y then 1 else 0)"
  "days_before_month y 4 = 90 + (if is_leap y then 1 else 0)"
  "days_before_month y 5 = 120 + (if is_leap y then 1 else 0)"
  "days_before_month y 6 = 151 + (if is_leap y then 1 else 0)"
  "days_before_month y 7 = 181 + (if is_leap y then 1 else 0)"
  "days_before_month y 8 = 212 + (if is_leap y then 1 else 0)"
  "days_before_month y 9 = 243 + (if is_leap y then 1 else 0)"
  "days_before_month y 10 = 273 + (if is_leap y then 1 else 0)"
  "days_before_month y 11 = 304 + (if is_leap y then 1 else 0)"
  "days_before_month y 12 = 334 + (if is_leap y then 1 else 0)"
  by (simp_all add: days_before_month_def)






lemma days_in_month_le: "days_in_month y m \<le> 31"
  by (simp add: days_in_month_def)




lemma toordinal_pos: "valid_date d \<Longrightarrow> 1 \<le> toordinal d"
proof -
  assume v: "valid_date d"
  then have "1 \<le> year d" by (simp add: valid_date_def)
  from days_before_year_mono[OF _ this] have "0 \<le> days_before_year (year d)"
    by (simp add: days_before_year_def)
  moreover have "0 \<le> days_before_month (year d) (month d)"
    using month_cases[of "month d"] v
    by (auto simp: valid_date_def days_before_month_simps)
  moreover have "1 \<le> day d" using v by (simp add: valid_date_def)
  ultimately show ?thesis by (simp add: toordinal_def)
qed








subsection \<open>Keys, ordering and the statements of the exit\<close>


lemma set_order_by_desc: "set (order_by_desc k xs) = set xs"
  by (simp add: order_by_desc_def)

lemma fetchone_None_iff: "fetchone xs = None \<longleftrightarrow> xs = []"
  by (cases xs) (simp_all add: fetchone_def)

lemma order_by_desc_Nil_iff: "order_by_desc k xs = [] \<longleftrightarrow> xs = []"
proof -
  have "order_by_desc k xs = [] \<longleftrightarrow> set (order_by_desc k xs) = {}" by simp
  then show ?thesis by (simp add: set_order_by_desc)
qed

lemma fetchone_order_by_desc:
  assumes "fetchone (order_by_desc k xs) = Some r"
  shows "r \<in> set xs \<and> (\<forall>x\<in>set xs. k x \<le> k r)"
proof -
  from assms obtain rest where o: "order_by_desc k xs = r # rest"
    by (cases "order_by_desc k xs") (simp_all add: fetchone_def)
  then have s: "sort_key k (rev xs) = rev rest @ [r]"
    by (simp add: order_by_desc_def rev_swap)
  have "sorted (map k (sort_key k (rev xs)))" by simp
  with s have "sorted (map k (rev rest) @ [k r])" by simp
  then have le: "\<forall>x\<in>set rest. k x \<le> k r" by (auto simp: sorted_append)
  have "set xs = set (r # rest)" using o set_order_by_desc[of k xs] by simp
  with le show ?thesis by auto
qed

lemma fold_max_ge: "(a::int) \<le> fold max xs a \<and> (\<forall>x\<in>set xs. x \<le> fold max xs a)"
proof (induction xs arbitrary: a)
  case Nil
  then show ?case by simp
next
  case (Cons y ys)
  from Cons.IH[of "max y a"] show ?case by auto
qed

lemma next_rowid_fresh: "r \<in> set (table_rows d) \<Longrightarrow> rec_id r < next_rowid d"
proof -
  assume "r \<in> set (table_rows d)"
  then have "rec_id r \<in> set (map rec_id (table_rows d))" by simp
  with fold_max_ge[of 0 "map rec_id (table_rows d)"]
  have "rec_id r \<le> fold max (map rec_id (table_rows d)) 0" by blast
  then show ?thesis by (simp add: next_rowid_def)
qed

lemma table_rows_insert_row:
  "table_rows (insert_row mk d) = table_rows d @ [mk (next_rowid d)]"
  by (simp add: insert_row_def Let_def)

lemma distinct_insert_row:
  assumes "distinct (map rec_id (table_rows d))" "\<And>i. rec_id (mk i) = i"
  shows "distinct (map rec_id (table_rows (insert_row mk d)))"
proof -
  have "next_rowid d \<notin> rec_id ` set (table_rows d)"
  proof
    assume "next_rowid d \<in> rec_id ` set (table_rows d)"
    then obtain r where "r \<in> set (table_rows d)" "next_rowid d = rec_id r" by auto
    with next_rowid_fresh[of r d] show False by simp
  qed
  with assms show ?thesis by (simp add: table_rows_insert_row)
qed

lemma update_exit_time_unique:
  assumes "distinct (map rec_id (table_rows d))" "r \<in> set (table_rows d)"
  shows "table_rows (update_exit_time t (rec_id r) d)
         = map (\<lambda>x. if x = r then x\<lparr>exit_time := Some t\<rparr> else x) (table_rows d)"
proof -
  from assms(1) have "inj_on rec_id (set (table_rows d))" by (simp add: distinct_map)
  with assms(2) have "\<forall>x\<in>set (table_rows d). rec_id x = rec_id r \<longleftrightarrow> x = r"
    by (auto dest: inj_onD)
  then show ?thesis by (simp add: update_exit_time_def)
qed

lemma record_exit_cases:
  fixes d :: "('a access_row_scheme) database"
  assumes cands: "cands = filter (open_entry nm (get_today_date_str now)) (table_rows d)"
  shows "(cands = [] \<and> record_exit now nm d
             = (d, [Db_connect, Db_execute SELECT, Printed (No_existing_entry nm)]))
       \<or> (\<exists>r\<in>set cands. (\<forall>c\<in>set cands. rec_id c \<le> rec_id r) \<and>
            record_exit now nm d
              = (update_exit_time (get_time_str now) (rec_id r) d,
                 [Db_connect, Db_execute SELECT, Db_execute UPDATE,
                  Printed (Exit_recorded nm (get_time_str now))]))"
proof (cases "fetchone (order_by_desc rec_id cands)")
  case None
  then have "cands = []" by (simp add: fetchone_None_iff order_by_desc_Nil_iff)
  with None show ?thesis by (simp add: record_exit_def cands Let_def)
next
  case (Some r)
  from fetchone_order_by_desc[OF Some] Some show ?thesis
    by (auto simp: record_exit_def cands Let_def)
qed


lemma record_exit_rows:
  fixes d :: "('a access_row_scheme) database"
  assumes "distinct (map rec_id (table_rows d))"
  shows "map rec_id (table_rows (fst (record_exit now nm d))) = map rec_id (table_rows d)
    \<and> (\<forall>r\<in>set (table_rows (fst (record_exit now nm d))).
          r \<in> set (table_rows d) \<or> result r = Some ''allowed'')"
proof -
  define cands where "cands = filter (open_entry nm (get_today_date_str now)) (table_rows d)"
  from record_exit_cases[OF cands_def]
  consider "record_exit now nm d
             = (d, [Db_connect, Db_execute SELECT, Printed (No_existing_entry nm)])"
    | r where "r \<in> set cands"
        "fst (record_exit now nm d) = update_exit_time (get_time_str now) (rec_id r) d"
    by auto
  then show ?thesis
  proof cases
    case 1
    then show ?thesis by simp
  next
    case 2
    from 2(1) have r: "r \<in> set (table_rows d)" "result r = Some ''allowed''"
      by (simp_all add: cands_def open_entry_def)
    have ids: "map rec_id (table_rows (update_exit_time (get_time_str now) (rec_id r) d))
               = map rec_id (table_rows d)"
      by (simp add: update_exit_time_def comp_def if_distrib[of rec_id])
    from update_exit_time_unique[OF assms r(1)] r(2) ids 2(2) show ?thesis
      by auto
  qed
qed

lemma fold_step_invariant:
  fixes d :: "('a access_row_scheme) database"
  assumes step: "\<And>x e. distinct (map rec_id (table_rows e)) \<Longrightarrow>
      distinct (map rec_id (table_rows (step x e))) \<and>
      (\<forall>r\<in>set (table_rows (step x e)).
         r \<in> set (table_rows e) \<or> exit_time r = None \<or> result r = Some ''allowed'')"
    and d: "distinct (map rec_id (table_rows d))"
  shows "distinct (map rec_id (table_rows (fold step xs d))) \<and>
      (\<forall>r\<in>set (table_rows (fold step xs d)).
         r \<in> set (table_rows d) \<or> exit_time r = None \<or> result r = Some ''allowed'')"
  using d
proof (induction xs arbitrary: d)
  case Nil
  then show ?case by simp
next
  case (Cons x xs)
  from step[OF Cons.prems, of x] have 1: "distinct (map rec_id (table_rows (step x d)))"
    and 2: "\<forall>r\<in>set (table_rows (step x d)).
         r \<in> set (table_rows d) \<or> exit_time r = None \<or> result r = Some ''allowed''"
    by simp_all
  from Cons.IH[OF 1] 2 show ?case by auto
qed

lemma logger2_operation_step:
  assumes "distinct (map rec_id (table_rows e))"
  shows "distinct (map rec_id (table_rows (logger2_operation x e))) \<and>
      (\<forall>r\<in>set (table_rows (logger2_operation x e)).
         r \<in> set (table_rows e) \<or> exit_time r = None \<or> result r = Some ''allowed'')"
proof (cases x)
  case (Entry now nm res_line reason_line)
  have "distinct (map rec_id (table_rows (logger2_operation x e)))"
    unfolding Entry logger2_operation_def record_entry_def Let_def
    by (simp add: distinct_insert_row[OF assms])
  then show ?thesis
    by (auto simp: Entry logger2_operation_def record_entry_def Let_def table_rows_insert_row)
next
  case (Exit now nm)
  from record_exit_rows[OF assms, of now nm] assms show ?thesis
    by (auto simp: Exit logger2_operation_def)
qed

lemma logger_operation_step:
  assumes "distinct (map rec_id (table_rows e))"
  shows "distinct (map rec_id (table_rows (logger_operation x e))) \<and>
      (\<forall>r\<in>set (table_rows (logger_operation x e)).
         r \<in> set (table_rows e) \<or> exit_time r = None \<or> result r = Some ''allowed'')"
proof (cases x)
  case (Entry now nm res_line reason_line)
  have "distinct (map rec_id (table_rows (logger_operation x e)))"
    unfolding Entry logger_operation_def logger_record_entry_def Let_def
    by (simp add: distinct_insert_row[OF assms])
  then show ?thesis
    by (auto simp: Entry logger_operation_def logger_record_entry_def Let_def table_rows_insert_row)
next
  case (Exit now nm)
  from record_exit_rows[OF assms, of now nm] assms show ?thesis
    by (auto simp: Exit logger_operation_def)
qed

subsection \<open>The concrete inputs evaluated\<close>

lemmas clock_simps = get_today_date_str_def get_time_str_def strftime_date_def strftime_time_def
  pad2_def pad4_def digit_char_def

lemma example_today: "get_today_date_str example_now = ''2024-03-15''"
  by (simp add: example_now_def clock_simps)

lemma example_time: "get_time_str example_now = ''09:30:00''"
  by (simp add: example_now_def clock_simps)

section \<open>Exit\<close>

text \<open>
  Claim C9. When \<^verbatim>\<open>record_exit(name)\<close> finds no record for that name dated today with
  result \<^verbatim>\<open>allowed\<close> and no exit time, it prints the message that no entry record was
  found, raises nothing and leaves the table as it was: the whole outcome is the
  unchanged table with the trace connect, \<^verbatim>\<open>SELECT\<close>, message.
\<close>

theorem record_exit_no_open_entry:
  fixes d :: "('a access_row_scheme) database"
  assumes "filter (open_entry nm (get_today_date_str now)) (table_rows d) = []"
  shows "record_exit now nm d
           = (d, [Db_connect, Db_execute SELECT, Printed (No_existing_entry nm)])
         \<and> \<not> raised (snd (record_exit now nm d))"
proof -
  from record_exit_cases[OF refl, of nm now d] assms
  have "record_exit now nm d
          = (d, [Db_connect, Db_execute SELECT, Printed (No_existing_entry nm)])"
    by auto
  then show ?thesis by (simp add: raised_def)
qed

theorem record_exit_no_open_entry_witness:
  "filter (open_entry ''eve'' (get_today_date_str example_now)) (table_rows example_db) = []
   \<and> record_exit example_now ''eve'' example_db
       = (example_db, [Db_connect, Db_execute SELECT, Printed (No_existing_entry ''eve'')])"
proof -
  have h: "filter (open_entry ''eve'' (get_today_date_str example_now)) (table_rows example_db) = []"
    by (simp add: example_today example_db_def example_row_def open_entry_def)
  from record_exit_no_open_entry[OF h] h show ?thesis by simp
qed

text \<open>
  Claim C4. When two or more records for the name are dated today, allowed and without
  exit time, \<^verbatim>\<open>record_exit(name)\<close> sets the exit time on exactly one record: the one
  among them whose id is larger than that of every other, and the rest of the table is
  as it was. The ids of a table are distinct (\<^verbatim>\<open>id\<close> is its primary key).
\<close>

theorem record_exit_closes_latest:
  fixes d :: "('a access_row_scheme) database"
  assumes "distinct (map rec_id (table_rows d))"
    and "2 \<le> length (filter (open_entry nm (get_today_date_str now)) (table_rows d))"
  shows "\<exists>r\<in>set (table_rows d).
           open_entry nm (get_today_date_str now) r
           \<and> (\<forall>c\<in>set (table_rows d).
                 open_entry nm (get_today_date_str now) c \<and> c \<noteq> r \<longrightarrow> rec_id c < rec_id r)
           \<and> fst (record_exit now nm d)
               = d\<lparr>table_rows :=
                     map (\<lambda>x. if x = r then x\<lparr>exit_time := Some (get_time_str now)\<rparr> else x)
                       (table_rows d)\<rparr>"
proof -
  define cands where "cands = filter (open_entry nm (get_today_date_str now)) (table_rows d)"
  from assms(2) have "cands \<noteq> []" by (auto simp: cands_def)
  with record_exit_cases[OF cands_def] obtain r where r: "r \<in> set cands"
    and mx: "\<forall>c\<in>set cands. rec_id c \<le> rec_id r"
    and ex: "fst (record_exit now nm d) = update_exit_time (get_time_str now) (rec_id r) d"
    by auto
  from r have rd: "r \<in> set (table_rows d)" and ro: "open_entry nm (get_today_date_str now) r"
    by (simp_all add: cands_def)
  from assms(1) have inj: "inj_on rec_id (set (table_rows d))" by (simp add: distinct_map)
  have "\<forall>c\<in>set (table_rows d).
          open_entry nm (get_today_date_str now) c \<and> c \<noteq> r \<longrightarrow> rec_id c < rec_id r"
  proof (intro ballI impI)
    fix c assume c: "c \<in> set (table_rows d)"
      and "open_entry nm (get_today_date_str now) c \<and> c \<noteq> r"
    then have "c \<in> set cands" "c \<noteq> r" by (simp_all add: cands_def)
    with mx have "rec_id c \<le> rec_id r" by simp
    moreover have "rec_id c \<noteq> rec_id r" using inj c rd \<open>c \<noteq> r\<close> by (auto dest: inj_onD)
    ultimately show "rec_id c < rec_id r" by simp
  qed
  moreover have "fst (record_exit now nm d)
      = d\<lparr>table_rows :=
            map (\<lambda>x. if x = r then x\<lparr>exit_time := Some (get_time_str now)\<rparr> else x)
              (table_rows d)\<rparr>"
    using update_exit_time_unique[OF assms(1) rd, of "get_time_str now"] ex
    by (simp add: update_exit_time_def)
  ultimately show ?thesis using rd ro by blast
qed

theorem record_exit_closes_latest_witness:
  "distinct (map rec_id (table_rows example_db))
   \<and> 2 \<le> length (filter (open_entry ''bob'' (get_today_date_str example_now))
                    (table_rows example_db))
   \<and> table_rows (fst (record_exit example_now ''bob'' example_db))
       = [example_row 1 ''bob'' ''2024-03-15'' ''08:00:00'' None ''allowed'',
          example_row 2 ''bob'' ''2024-03-15'' ''08:30:00'' None ''denied'',
          example_row 3 ''bob'' ''2024-03-15'' ''09:00:00'' (Some ''09:30:00'') ''allowed'',
          example_row 4 ''eve'' ''2024-03-15'' ''09:10:00'' None ''denied'',
          example_row 5 ''amy'' ''2024-01-10'' ''07:00:00'' (Some ''17:00:00'') ''allowed'']"
proof -
  have h1: "distinct (map rec_id (table_rows example_db))"
    by (simp add: example_db_def example_row_def)
  have h2: "2 \<le> length (filter (open_entry ''bob'' (get_today_date_str example_now))
                    (table_rows example_db))"
    by (simp add: example_today example_db_def example_row_def open_entry_def)
  from record_exit_closes_latest[OF h1 h2] obtain r where
    r: "r \<in> set (table_rows example_db)"
    and mx: "\<forall>c\<in>set (table_rows example_db).
        open_entry ''bob'' (get_today_date_str example_now) c \<and> c \<noteq> r \<longrightarrow> rec_id c < rec_id r"
    and o: "open_entry ''bob'' (get_today_date_str example_now) r"
    and e: "fst (record_exit example_now ''bob'' example_db)
      = example_db\<lparr>table_rows :=
          map (\<lambda>x. if x = r then x\<lparr>exit_time := Some (get_time_str example_now)\<rparr> else x)
            (table_rows example_db)\<rparr>"
    by blast
  from r o mx have "r = example_row 3 ''bob'' ''2024-03-15'' ''09:00:00'' None ''allowed''"
    by (auto simp: example_today example_db_def example_row_def open_entry_def)
  with e h1 h2 show ?thesis
    by (simp add: example_time example_db_def example_row_def)
qed

text \<open>
  Claim C2. In both variants, whatever sequence of entries and exits is run against a
  table with distinct ids, a record of the resulting table whose result is not
  \<^verbatim>\<open>allowed\<close> (a denial, or anything else typed at the prompt) has no exit time, unless
  it is a record of the starting table, unchanged. So \<^verbatim>\<open>record_exit\<close> sets an exit
  time only on a record whose result is \<^verbatim>\<open>allowed\<close>.
\<close>

theorem exit_never_on_denied:
  assumes "distinct (map rec_id (table_rows d2))" and "distinct (map rec_id (table_rows d1))"
  shows "(\<forall>r\<in>set (table_rows (fold logger2_operation xs d2)).
            result r \<noteq> Some ''allowed'' \<longrightarrow> exit_time r = None \<or> r \<in> set (table_rows d2))
       \<and> (\<forall>r\<in>set (table_rows (fold logger_operation xs d1)).
            result r \<noteq> Some ''allowed'' \<longrightarrow> exit_time r = None \<or> r \<in> set (table_rows d1))"
proof -
  from fold_step_invariant[of logger2_operation d2 xs, OF logger2_operation_step assms(1)]
  have "\<forall>r\<in>set (table_rows (fold logger2_operation xs d2)).
          r \<in> set (table_rows d2) \<or> exit_time r = None \<or> result r = Some ''allowed''"
    by simp
  moreover
  from fold_step_invariant[of logger_operation d1 xs, OF logger_operation_step assms(2)]
  have "\<forall>r\<in>set (table_rows (fold logger_operation xs d1)).
          r \<in> set (table_rows d1) \<or> exit_time r = None \<or> result r = Some ''allowed''"
    by simp
  ultimately show ?thesis by blast
qed

lemma example_denied: "lower (strip '' Denied '') = ''denied''"
  by (simp add: lower_def strip_def isspace_def lower_char_def)

lemma example_reason: "strip '' no badge '' = ''no badge''"
  by (simp add: strip_def isspace_def)

lemma example_run2:
  "table_rows (fold logger2_operation example_ops example_db) =
     [example_row 1 ''bob'' ''2024-03-15'' ''08:00:00'' None ''allowed'',
      example_row 2 ''bob'' ''2024-03-15'' ''08:30:00'' None ''denied'',
      example_row 3 ''bob'' ''2024-03-15'' ''09:00:00'' (Some ''09:30:00'') ''allowed'',
      example_row 4 ''eve'' ''2024-03-15'' ''09:10:00'' None ''denied'',
      example_row 5 ''amy'' ''2024-01-10'' ''07:00:00'' (Some ''17:00:00'') ''allowed'',
      example_row 6 ''dan'' ''2024-03-15'' ''09:30:00'' None ''denied'']"
  by (simp add: example_ops_def logger2_operation_def record_entry_def record_exit_def
      example_today example_time example_denied example_reason example_db_def example_row_def
      insert_row_def next_rowid_def open_entry_def order_by_desc_def fetchone_def
      update_exit_time_def Let_def)

theorem exit_never_on_denied_witness:
  "distinct (map rec_id (table_rows example_db))
   \<and> distinct (map rec_id (table_rows example_db1))
   \<and> example_row 6 ''dan'' ''2024-03-15'' ''09:30:00'' None ''denied''
        \<in> set (table_rows (fold logger2_operation example_ops example_db))
   \<and> result (example_row 6 ''dan'' ''2024-03-15'' ''09:30:00'' None ''denied'') \<noteq> Some ''allowed''
   \<and> exit_time (example_row 6 ''dan'' ''2024-03-15'' ''09:30:00'' None ''denied'') = None"
proof -
  have h2: "distinct (map rec_id (table_rows example_db))"
    by (simp add: example_db_def example_row_def)
  have h1: "distinct (map rec_id (table_rows example_db1))"
    by (simp add: example_db1_def)
  have m: "example_row 6 ''dan'' ''2024-03-15'' ''09:30:00'' None ''denied''
        \<in> set (table_rows (fold logger2_operation example_ops example_db))"
    by (simp add: example_run2)
  have n: "result (example_row 6 ''dan'' ''2024-03-15'' ''09:30:00'' None ''denied'')
        \<noteq> Some ''allowed''"
    by (simp add: example_row_def)
  have o: "example_row 6 ''dan'' ''2024-03-15'' ''09:30:00'' None ''denied''
        \<notin> set (table_rows example_db)"
    by (simp add: example_db_def example_row_def)
  from exit_never_on_denied[OF h2 h1, of example_ops] m n o
  have "exit_time (example_row 6 ''dan'' ''2024-03-15'' ''09:30:00'' None ''denied'') = None"
    by blast
  with h1 h2 m n show ?thesis by simp
qed

section \<open>Entry\<close>


section \<open>Start-up of logger.py\<close>

text \<open>
  Claim C10. \<^verbatim>\<open>init_db\<close> of \<^verbatim>\<open>logger.py\<close> drops the table and creates it again,
  whatever the database held: afterwards the table has no rows and its key counter starts
  anew, and a run of the program does the same from any earlier content as from none.
\<close>

theorem logger_init_db_empties:
  "logger_init_db t
     = (Some \<lparr>table_rows = [], seq = 0\<rparr>,
        [Db_connect, Db_execute DROP_TABLE, Db_execute CREATE_TABLE])
   \<and> logger_main t cs = logger_main (None :: access_row database option) cs
   \<and> logger_main t [] = (Some \<lparr>table_rows = [], seq = 0\<rparr>,
        [Db_connect, Db_execute DROP_TABLE, Db_execute CREATE_TABLE, Raised EOFError])"
  by (simp add: logger_init_db_def drop_table_if_exists_def create_table_def logger_main_def)

section \<open>Listings\<close>

lemma strptime_valid: "strptime s = Some t \<Longrightarrow> valid_date t"
  by (auto simp: strptime_def Let_def split: option.splits prod.splits if_splits)





lemma set_order_by: "set (order_by k xs) = set xs"
  by (simp add: order_by_def)






section \<open>Hand-off of old records and clean-up\<close>































end
